theory Spec2Isabelle
  imports Main "HOL-Library.Word"
begin

section \<open>JNI bindings for libsecp256k1: the model\<close>

text \<open>
  The C file \<^verbatim>\<open>scalus_secp256k1.c\<close> has one static context, guarded by
  \<^verbatim>\<open>pthread_once\<close>, and three JNI entry points. Each entry point is modelled as a
  function on an explicit world: the static variables of the file, the Java heap of byte
  arrays, the native views that JNI has handed out and not yet taken back, the answers JNI
  will give to the next requests for a view, and the trace of the calls made into JNI and
  into libsecp256k1. A result \<open>None\<close> stands for undefined behaviour of the C program (a
  read through a pointer that is not a live view or that is too short, the release of a
  pointer that is not a live view). A Java \<^verbatim>\<open>null\<close> reference is not a byte buffer and is
  not modelled: every \<^verbatim>\<open>jbyteArray\<close> names an array of the Java heap.
\<close>

subsection \<open>Data\<close>

type_synonym byte = "8 word"

type_synonym jbyteArray = nat

text \<open>A native pointer to array elements; \<open>0\<close> is \<^verbatim>\<open>NULL\<close>.\<close>

type_synonym jbyte_ptr = nat

datatype context_flags = SECP256K1_CONTEXT_NONE | SECP256K1_CONTEXT_VERIFY | SECP256K1_CONTEXT_SIGN

text \<open>
  The third argument of \<^verbatim>\<open>ReleaseByteArrayElements\<close>: \<open>0\<close> copies the view back and frees
  it, \<^verbatim>\<open>JNI_COMMIT\<close> copies back and keeps it, \<^verbatim>\<open>JNI_ABORT\<close> frees it without copying back.
\<close>

datatype release_mode = JNI_COPY_BACK | JNI_COMMIT | JNI_ABORT

datatype event =
    Context_create context_flags
  | Get_elements jbyteArray jbyte_ptr
  | Release_elements jbyteArray jbyte_ptr release_mode
  | Ec_pubkey_parse
  | Ecdsa_signature_parse_compact
  | Ecdsa_verify
  | Xonly_pubkey_parse
  | Schnorrsig_verify

text \<open>
  libsecp256k1 is external. Its functions are parameters of the model: each parse returns
  the C return code together with the object it wrote, each verification returns the C
  return code. A byte list argument is what the function reads through the pointer it is
  given.
\<close>

record ('ctx, 'pk, 'sg, 'xo) secp256k1 =
  secp256k1_context_create :: "context_flags \<Rightarrow> 'ctx option"
  secp256k1_ec_pubkey_parse :: "'ctx \<Rightarrow> byte list \<Rightarrow> int \<times> 'pk"
  secp256k1_ecdsa_signature_parse_compact :: "'ctx \<Rightarrow> byte list \<Rightarrow> int \<times> 'sg"
  secp256k1_ecdsa_verify :: "'ctx \<Rightarrow> 'sg \<Rightarrow> byte list \<Rightarrow> 'pk \<Rightarrow> int"
  secp256k1_xonly_pubkey_parse :: "'ctx \<Rightarrow> byte list \<Rightarrow> int \<times> 'xo"
  secp256k1_schnorrsig_verify :: "'ctx \<Rightarrow> byte list \<Rightarrow> byte list \<Rightarrow> 'xo \<Rightarrow> int"

type_synonym view = "jbyte_ptr \<times> jbyteArray \<times> byte list"

record 'ctx world =
  ctx :: "'ctx option"
  ctx_init_once :: bool
  arrays :: "jbyteArray \<Rightarrow> byte list"
  views :: "view list"
  get_results :: "bool list"
  trace :: "event list"

subsection \<open>The context\<close>

definition init_context :: "('ctx, 'pk, 'sg, 'xo) secp256k1 \<Rightarrow> 'ctx world \<Rightarrow> 'ctx world" where
  "init_context L w =
     w\<lparr>ctx := secp256k1_context_create L SECP256K1_CONTEXT_VERIFY,
       trace := trace w @ [Context_create SECP256K1_CONTEXT_VERIFY]\<rparr>"

text \<open>\<^verbatim>\<open>pthread_once\<close> as one thread sees it: the routine runs if the control is still
  \<^verbatim>\<open>PTHREAD_ONCE_INIT\<close> (\<open>False\<close>), and the control is set.\<close>

definition pthread_once :: "'ctx world \<Rightarrow> ('ctx world \<Rightarrow> 'ctx world) \<Rightarrow> 'ctx world" where
  "pthread_once w init_routine =
     (if ctx_init_once w then w else (init_routine w)\<lparr>ctx_init_once := True\<rparr>)"

definition get_context ::
  "('ctx, 'pk, 'sg, 'xo) secp256k1 \<Rightarrow> 'ctx world \<Rightarrow> 'ctx option \<times> 'ctx world" where
  "get_context L w = (let w' = pthread_once w (init_context L) in (ctx w', w'))"

definition secp256k1_init_context ::
  "('ctx, 'pk, 'sg, 'xo) secp256k1 \<Rightarrow> 'ctx world \<Rightarrow> 'ctx option \<times> 'ctx world" where
  "secp256k1_init_context L w = get_context L w"

subsection \<open>JNI array functions\<close>

definition GetArrayLength :: "'ctx world \<Rightarrow> jbyteArray \<Rightarrow> nat" where
  "GetArrayLength w a = length (arrays w a)"

fun max_ptr :: "view list \<Rightarrow> jbyte_ptr" where
  "max_ptr [] = 0"
| "max_ptr (v # vs) = max (fst v) (max_ptr vs)"

definition fresh_ptr :: "view list \<Rightarrow> jbyte_ptr" where
  "fresh_ptr vs = Suc (max_ptr vs)"

text \<open>
  \<^verbatim>\<open>GetByteArrayElements\<close> either hands out a view of the array at an address that is not in
  use, or fails and returns \<^verbatim>\<open>NULL\<close>. Which of the two happens is the next answer in
  \<open>get_results\<close> (no answer left: it fails).
\<close>

definition GetByteArrayElements :: "'ctx world \<Rightarrow> jbyteArray \<Rightarrow> jbyte_ptr \<times> 'ctx world" where
  "GetByteArrayElements w a =
     (case get_results w of
        True # rest \<Rightarrow>
          (let p = fresh_ptr (views w)
           in (p, w\<lparr>views := (p, a, arrays w a) # views w, get_results := rest,
                    trace := trace w @ [Get_elements a p]\<rparr>))
      | _ \<Rightarrow> (0, w\<lparr>get_results := tl (get_results w), trace := trace w @ [Get_elements a 0]\<rparr>))"

definition remove_view :: "jbyte_ptr \<Rightarrow> view list \<Rightarrow> view list" where
  "remove_view p vs = filter (\<lambda>v. fst v \<noteq> p) vs"

definition ReleaseByteArrayElements ::
  "'ctx world \<Rightarrow> jbyteArray \<Rightarrow> jbyte_ptr \<Rightarrow> release_mode \<Rightarrow> 'ctx world option" where
  "ReleaseByteArrayElements w a p mode =
     (case map_of (views w) p of
        None \<Rightarrow> None
      | Some (a', bs) \<Rightarrow>
          if a' \<noteq> a then None
          else Some (w\<lparr>arrays := (if mode = JNI_ABORT then arrays w else (arrays w)(a := bs)),
                       views := (if mode = JNI_COMMIT then views w else remove_view p (views w)),
                       trace := trace w @ [Release_elements a p mode]\<rparr>))"

text \<open>Reading \<open>n\<close> bytes through a native pointer (what a library function does with a
  \<^verbatim>\<open>const unsigned char*\<close> argument).\<close>

definition read_bytes :: "'ctx world \<Rightarrow> jbyte_ptr \<Rightarrow> nat \<Rightarrow> byte list option" where
  "read_bytes w p n =
     (case map_of (views w) p of
        None \<Rightarrow> None
      | Some (a, bs) \<Rightarrow> if n \<le> length bs then Some (take n bs) else None)"

definition log_call :: "event \<Rightarrow> 'ctx world \<Rightarrow> 'ctx world" where
  "log_call e w = w\<lparr>trace := trace w @ [e]\<rparr>"

subsection \<open>isValidPubKey\<close>

definition isValidPubKey ::
  "('ctx, 'pk, 'sg, 'xo) secp256k1 \<Rightarrow> 'ctx world \<Rightarrow> jbyteArray \<Rightarrow> (bool \<times> 'ctx world) option" where
  "isValidPubKey L w pubKey =
     (case get_context L w of
        (None, w1) \<Rightarrow> Some (False, w1)
      | (Some context, w1) \<Rightarrow>
          (let pubkey_len = GetArrayLength w1 pubKey in
           if pubkey_len \<noteq> 33 \<and> pubkey_len \<noteq> 65 then Some (False, w1)
           else
             (case GetByteArrayElements w1 pubKey of
                (pubkey_bytes, w2) \<Rightarrow>
                  if pubkey_bytes = 0 then Some (False, w2)
                  else
                    (case read_bytes w2 pubkey_bytes pubkey_len of
                       None \<Rightarrow> None
                     | Some input \<Rightarrow>
                         (let result = fst (secp256k1_ec_pubkey_parse L context input);
                              w3 = log_call Ec_pubkey_parse w2
                          in case ReleaseByteArrayElements w3 pubKey pubkey_bytes JNI_ABORT of
                               None \<Rightarrow> None
                             | Some w4 \<Rightarrow> Some (result = 1, w4))))))"

subsection \<open>ecdsaVerify\<close>

text \<open>The three releases under the label \<^verbatim>\<open>cleanup\<close> and the final return.\<close>

definition cleanup ::
  "'ctx world \<Rightarrow> jbyteArray \<Rightarrow> jbyte_ptr \<Rightarrow> jbyteArray \<Rightarrow> jbyte_ptr \<Rightarrow> jbyteArray \<Rightarrow> jbyte_ptr
     \<Rightarrow> int \<Rightarrow> (bool \<times> 'ctx world) option" where
  "cleanup w a1 p1 a2 p2 a3 p3 result =
     (case ReleaseByteArrayElements w a1 p1 JNI_ABORT of
        None \<Rightarrow> None
      | Some w1 \<Rightarrow>
          (case ReleaseByteArrayElements w1 a2 p2 JNI_ABORT of
             None \<Rightarrow> None
           | Some w2 \<Rightarrow>
               (case ReleaseByteArrayElements w2 a3 p3 JNI_ABORT of
                  None \<Rightarrow> None
                | Some w3 \<Rightarrow> Some (result = 1, w3))))"

text \<open>The branch taken when one of the three pointers is \<^verbatim>\<open>NULL\<close>: each pointer that is
  not \<^verbatim>\<open>NULL\<close> is released, and the call returns \<^verbatim>\<open>JNI_FALSE\<close>.\<close>

definition release_if ::
  "'ctx world \<Rightarrow> jbyteArray \<Rightarrow> jbyte_ptr \<Rightarrow> 'ctx world option" where
  "release_if w a p = (if p \<noteq> 0 then ReleaseByteArrayElements w a p JNI_ABORT else Some w)"

definition release_acquired ::
  "'ctx world \<Rightarrow> jbyteArray \<Rightarrow> jbyte_ptr \<Rightarrow> jbyteArray \<Rightarrow> jbyte_ptr \<Rightarrow> jbyteArray \<Rightarrow> jbyte_ptr
     \<Rightarrow> (bool \<times> 'ctx world) option" where
  "release_acquired w a1 p1 a2 p2 a3 p3 =
     (case release_if w a1 p1 of
        None \<Rightarrow> None
      | Some w1 \<Rightarrow>
          (case release_if w1 a2 p2 of
             None \<Rightarrow> None
           | Some w2 \<Rightarrow>
               (case release_if w2 a3 p3 of
                  None \<Rightarrow> None
                | Some w3 \<Rightarrow> Some (False, w3))))"

definition ecdsaVerify ::
  "('ctx, 'pk, 'sg, 'xo) secp256k1 \<Rightarrow> 'ctx world \<Rightarrow> jbyteArray \<Rightarrow> jbyteArray \<Rightarrow> jbyteArray
     \<Rightarrow> (bool \<times> 'ctx world) option" where
  "ecdsaVerify L w msg32 sig64 pubKey33 =
     (case get_context L w of
        (None, w1) \<Rightarrow> Some (False, w1)
      | (Some context, w1) \<Rightarrow>
          if GetArrayLength w1 msg32 \<noteq> 32 \<or> GetArrayLength w1 sig64 \<noteq> 64
             \<or> GetArrayLength w1 pubKey33 \<noteq> 33
          then Some (False, w1)
          else
            (case GetByteArrayElements w1 msg32 of (msg_bytes, w2) \<Rightarrow>
             case GetByteArrayElements w2 sig64 of (sig_bytes, w3) \<Rightarrow>
             case GetByteArrayElements w3 pubKey33 of (pubkey_bytes, w4) \<Rightarrow>
               if msg_bytes = 0 \<or> sig_bytes = 0 \<or> pubkey_bytes = 0
               then release_acquired w4 msg32 msg_bytes sig64 sig_bytes pubKey33 pubkey_bytes
               else
                 (case read_bytes w4 pubkey_bytes 33 of
                    None \<Rightarrow> None
                  | Some input \<Rightarrow>
                      (case secp256k1_ec_pubkey_parse L context input of (r1, pubkey) \<Rightarrow>
                       let w5 = log_call Ec_pubkey_parse w4 in
                       if r1 \<noteq> 1
                       then cleanup w5 msg32 msg_bytes sig64 sig_bytes pubKey33 pubkey_bytes 0
                       else
                         (case read_bytes w5 sig_bytes 64 of
                            None \<Rightarrow> None
                          | Some input64 \<Rightarrow>
                              (case secp256k1_ecdsa_signature_parse_compact L context input64 of
                                 (r2, sig) \<Rightarrow>
                                 let w6 = log_call Ecdsa_signature_parse_compact w5 in
                                 if r2 \<noteq> 1
                                 then cleanup w6 msg32 msg_bytes sig64 sig_bytes
                                        pubKey33 pubkey_bytes 0
                                 else
                                   (case read_bytes w6 msg_bytes 32 of
                                      None \<Rightarrow> None
                                    | Some msghash32 \<Rightarrow>
                                        cleanup (log_call Ecdsa_verify w6)
                                          msg32 msg_bytes sig64 sig_bytes pubKey33 pubkey_bytes
                                          (secp256k1_ecdsa_verify L context sig msghash32
                                             pubkey))))))))"

subsection \<open>schnorrVerify\<close>

definition schnorrVerify ::
  "('ctx, 'pk, 'sg, 'xo) secp256k1 \<Rightarrow> 'ctx world \<Rightarrow> jbyteArray \<Rightarrow> jbyteArray \<Rightarrow> jbyteArray
     \<Rightarrow> (bool \<times> 'ctx world) option" where
  "schnorrVerify L w sig64 msg pubKey32 =
     (case get_context L w of
        (None, w1) \<Rightarrow> Some (False, w1)
      | (Some context, w1) \<Rightarrow>
          if GetArrayLength w1 sig64 \<noteq> 64 \<or> GetArrayLength w1 pubKey32 \<noteq> 32
          then Some (False, w1)
          else
            (let msg_len = GetArrayLength w1 msg in
             case GetByteArrayElements w1 sig64 of (sig_bytes, w2) \<Rightarrow>
             case GetByteArrayElements w2 msg of (msg_bytes, w3) \<Rightarrow>
             case GetByteArrayElements w3 pubKey32 of (pubkey_bytes, w4) \<Rightarrow>
               if sig_bytes = 0 \<or> msg_bytes = 0 \<or> pubkey_bytes = 0
               then release_acquired w4 sig64 sig_bytes msg msg_bytes pubKey32 pubkey_bytes
               else
                 (case read_bytes w4 pubkey_bytes 32 of
                    None \<Rightarrow> None
                  | Some input32 \<Rightarrow>
                      (case secp256k1_xonly_pubkey_parse L context input32 of
                         (r1, xonly_pubkey) \<Rightarrow>
                         let w5 = log_call Xonly_pubkey_parse w4 in
                         if r1 \<noteq> 1
                         then cleanup w5 sig64 sig_bytes msg msg_bytes pubKey32 pubkey_bytes 0
                         else
                           (case read_bytes w5 sig_bytes 64 of
                              None \<Rightarrow> None
                            | Some s64 \<Rightarrow>
                                (case read_bytes w5 msg_bytes msg_len of
                                   None \<Rightarrow> None
                                 | Some m \<Rightarrow>
                                     cleanup (log_call Schnorrsig_verify w5)
                                       sig64 sig_bytes msg msg_bytes pubKey32 pubkey_bytes
                                       (secp256k1_schnorrsig_verify L context s64 m
                                          xonly_pubkey)))))))"


subsection \<open>Reading the trace\<close>

text \<open>What \<open>get_context\<close> adds to the trace: the one construction, if it has not run yet.\<close>

definition ctx_events :: "'ctx world \<Rightarrow> event list" where
  "ctx_events w = (if ctx_init_once w then [] else [Context_create SECP256K1_CONTEXT_VERIFY])"

definition new_events :: "'ctx world \<Rightarrow> 'ctx world \<Rightarrow> event list" where
  "new_events w w' = drop (length (trace w)) (trace w')"

text \<open>The views handed out (a \<^verbatim>\<open>NULL\<close> answer hands out nothing), the views given back, and
  the modes they were given back in, each in the order of the calls.\<close>

fun acquired :: "event list \<Rightarrow> (jbyteArray \<times> jbyte_ptr) list" where
  "acquired [] = []"
| "acquired (Get_elements a p # es) = (if p = 0 then acquired es else (a, p) # acquired es)"
| "acquired (_ # es) = acquired es"

fun released :: "event list \<Rightarrow> (jbyteArray \<times> jbyte_ptr) list" where
  "released [] = []"
| "released (Release_elements a p m # es) = (a, p) # released es"
| "released (_ # es) = released es"

fun release_modes :: "event list \<Rightarrow> release_mode list" where
  "release_modes [] = []"
| "release_modes (Release_elements a p m # es) = m # release_modes es"
| "release_modes (_ # es) = release_modes es"

fun is_lib_call :: "event \<Rightarrow> bool" where
  "is_lib_call (Context_create _) = False"
| "is_lib_call (Get_elements _ _) = False"
| "is_lib_call (Release_elements _ _ _) = False"
| "is_lib_call _ = True"

definition lib_calls :: "event list \<Rightarrow> event list" where
  "lib_calls es = filter is_lib_call es"

subsection \<open>The answers of JNI and the shapes of the inputs\<close>

text \<open>Whether the request number \<open>k\<close> from now for a view will be granted.\<close>

definition granted :: "bool list \<Rightarrow> nat \<Rightarrow> bool" where
  "granted gr k = (case drop k gr of True # _ \<Rightarrow> True | _ \<Rightarrow> False)"

definition granted1 :: "'ctx world \<Rightarrow> bool" where
  "granted1 w \<longleftrightarrow> take 1 (get_results w) = [True]"

definition granted3 :: "'ctx world \<Rightarrow> bool" where
  "granted3 w \<longleftrightarrow> take 3 (get_results w) = [True, True, True]"

definition pubkey_length :: "'ctx world \<Rightarrow> jbyteArray \<Rightarrow> bool" where
  "pubkey_length w k \<longleftrightarrow> length (arrays w k) = 33 \<or> length (arrays w k) = 65"

definition ecdsa_lengths :: "'ctx world \<Rightarrow> jbyteArray \<Rightarrow> jbyteArray \<Rightarrow> jbyteArray \<Rightarrow> bool" where
  "ecdsa_lengths w m s k \<longleftrightarrow>
     length (arrays w m) = 32 \<and> length (arrays w s) = 64 \<and> length (arrays w k) = 33"

definition schnorr_lengths :: "'ctx world \<Rightarrow> jbyteArray \<Rightarrow> jbyteArray \<Rightarrow> bool" where
  "schnorr_lengths w s k \<longleftrightarrow> length (arrays w s) = 64 \<and> length (arrays w k) = 32"

text \<open>The world after a call that took three views, made the library calls \<open>libs\<close> and gave
  the three views back.\<close>

definition three_views ::
  "'ctx world \<Rightarrow> jbyteArray \<Rightarrow> jbyteArray \<Rightarrow> jbyteArray \<Rightarrow> event list \<Rightarrow> 'ctx world" where
  "three_views w a1 a2 a3 libs =
     (let p = fresh_ptr (views w) in
      w\<lparr>get_results := tl (tl (tl (get_results w))),
        trace := trace w @ [Get_elements a1 p, Get_elements a2 (Suc p), Get_elements a3 (Suc (Suc p))]
          @ libs @ [Release_elements a1 p JNI_ABORT, Release_elements a2 (Suc p) JNI_ABORT,
                    Release_elements a3 (Suc (Suc p)) JNI_ABORT]\<rparr>)"

text \<open>
  \<open>outcome w1 r b libs\<close>: the call returned \<open>b\<close>; against the world \<open>w1\<close> it left the context,
  the Java arrays and the live views as they were; it made the library calls \<open>libs\<close>; the views
  it gave back are the views it took, none twice, each in mode \<^verbatim>\<open>JNI_ABORT\<close>.
\<close>

definition outcome ::
  "'ctx world \<Rightarrow> (bool \<times> 'ctx world) option \<Rightarrow> bool \<Rightarrow> event list \<Rightarrow> bool" where
  "outcome w1 r b libs \<longleftrightarrow>
     (\<exists>w' evs. r = Some (b, w') \<and> ctx w' = ctx w1 \<and> ctx_init_once w' = ctx_init_once w1
        \<and> arrays w' = arrays w1 \<and> views w' = views w1
        \<and> trace w' = trace w1 @ evs \<and> lib_calls evs = libs
        \<and> released evs = acquired evs \<and> distinct (map snd (acquired evs))
        \<and> set (release_modes evs) \<subseteq> {JNI_ABORT})"

subsection \<open>What the specification says each operation accepts\<close>

text \<open>These three predicates follow the words of the specification, not the code: the lengths
  are right, each parse succeeds (return code 1), and the verification succeeds on the parsed
  objects.\<close>

definition pubkey_accepts :: "('ctx, 'pk, 'sg, 'xo) secp256k1 \<Rightarrow> 'ctx \<Rightarrow> byte list \<Rightarrow> bool" where
  "pubkey_accepts L c k \<longleftrightarrow>
     (length k = 33 \<or> length k = 65) \<and> fst (secp256k1_ec_pubkey_parse L c k) = 1"

definition ecdsa_accepts ::
  "('ctx, 'pk, 'sg, 'xo) secp256k1 \<Rightarrow> 'ctx \<Rightarrow> byte list \<Rightarrow> byte list \<Rightarrow> byte list \<Rightarrow> bool" where
  "ecdsa_accepts L c m s k \<longleftrightarrow>
     length m = 32 \<and> length s = 64 \<and> length k = 33 \<and>
     fst (secp256k1_ec_pubkey_parse L c k) = 1 \<and>
     fst (secp256k1_ecdsa_signature_parse_compact L c s) = 1 \<and>
     secp256k1_ecdsa_verify L c (snd (secp256k1_ecdsa_signature_parse_compact L c s)) m
       (snd (secp256k1_ec_pubkey_parse L c k)) = 1"

definition schnorr_accepts ::
  "('ctx, 'pk, 'sg, 'xo) secp256k1 \<Rightarrow> 'ctx \<Rightarrow> byte list \<Rightarrow> byte list \<Rightarrow> byte list \<Rightarrow> bool" where
  "schnorr_accepts L c s m k \<longleftrightarrow>
     length s = 64 \<and> length k = 32 \<and>
     fst (secp256k1_xonly_pubkey_parse L c k) = 1 \<and>
     secp256k1_schnorrsig_verify L c s m (snd (secp256k1_xonly_pubkey_parse L c k)) = 1"

text \<open>The library calls of a run that got its context and its views, in order: a failed parse
  ends the list.\<close>

definition ecdsa_calls ::
  "('ctx, 'pk, 'sg, 'xo) secp256k1 \<Rightarrow> 'ctx \<Rightarrow> byte list \<Rightarrow> byte list \<Rightarrow> event list" where
  "ecdsa_calls L c s k =
     Ec_pubkey_parse #
       (if fst (secp256k1_ec_pubkey_parse L c k) = 1
        then Ecdsa_signature_parse_compact #
          (if fst (secp256k1_ecdsa_signature_parse_compact L c s) = 1 then [Ecdsa_verify] else [])
        else [])"

definition schnorr_calls ::
  "('ctx, 'pk, 'sg, 'xo) secp256k1 \<Rightarrow> 'ctx \<Rightarrow> byte list \<Rightarrow> event list" where
  "schnorr_calls L c k =
     Xonly_pubkey_parse #
       (if fst (secp256k1_xonly_pubkey_parse L c k) = 1 then [Schnorrsig_verify] else [])"

subsection \<open>Example values\<close>

text \<open>A stand-in library: a key parses if its first byte is 2, every signature parses, and a
  signature verifies if its first byte is the first byte of the digest (ECDSA) or of the key
  (Schnorr). \<open>failing_lib\<close> is the same library when it cannot build a context.\<close>

definition example_lib :: "(unit, byte list, byte list, byte list) secp256k1" where
  "example_lib =
     \<lparr>secp256k1_context_create = (\<lambda>flags. Some ()),
      secp256k1_ec_pubkey_parse = (\<lambda>c input. (if take 1 input = [2] then 1 else 0, input)),
      secp256k1_ecdsa_signature_parse_compact = (\<lambda>c input64. (1, input64)),
      secp256k1_ecdsa_verify =
        (\<lambda>c sig msghash32 pubkey. if take 1 sig = take 1 msghash32 then 1 else 0),
      secp256k1_xonly_pubkey_parse = (\<lambda>c input32. (1, input32)),
      secp256k1_schnorrsig_verify =
        (\<lambda>c sig64 msg pubkey. if take 1 sig64 = take 1 pubkey then 1 else 0)\<rparr>"

definition failing_lib :: "(unit, byte list, byte list, byte list) secp256k1" where
  "failing_lib = example_lib\<lparr>secp256k1_context_create := (\<lambda>flags. None)\<rparr>"

text \<open>Array 0 has 32 zero bytes, array 1 has 64 zero bytes, array 2 has 33 bytes and starts
  with 2, array 4 has 33 bytes and starts with 0, every other array is empty.\<close>

definition example_arrays :: "jbyteArray \<Rightarrow> byte list" where
  "example_arrays a =
     (if a = 0 then replicate 32 0 else if a = 1 then replicate 64 0
      else if a = 2 then 2 # replicate 32 0 else if a = 4 then replicate 33 0 else [])"

text \<open>A process in which nothing has run yet and JNI will grant the next three views.\<close>

definition fresh_world :: "unit world" where
  "fresh_world =
     \<lparr>ctx = None, ctx_init_once = False, arrays = example_arrays, views = [],
      get_results = [True, True, True], trace = []\<rparr>"

text \<open>A process whose context is built, with one view of array 7 still live at address 5.\<close>

definition ready_world :: "unit world" where
  "ready_world =
     \<lparr>ctx = Some (), ctx_init_once = True, arrays = example_arrays, views = [(5, 7, [])],
      get_results = [True, True, True, False], trace = [Context_create SECP256K1_CONTEXT_VERIFY]\<rparr>"

section \<open>Lemmas\<close>

subsection \<open>The context\<close>

lemma get_context_frame:
  "arrays (snd (get_context L w)) = arrays w"
  "views (snd (get_context L w)) = views w"
  "get_results (snd (get_context L w)) = get_results w"
  "trace (snd (get_context L w)) = trace w @ ctx_events w"
  "ctx_init_once (snd (get_context L w)) = True"
  "ctx (snd (get_context L w)) = fst (get_context L w)"
  by (simp_all add: get_context_def pthread_once_def init_context_def ctx_events_def Let_def)

lemma get_context_split:
  obtains x w1 where "get_context L w = (x, w1)" "fst (get_context L w) = x"
    "snd (get_context L w) = w1" "arrays w1 = arrays w" "get_results w1 = get_results w"
  using get_context_frame[of L w] by (cases "get_context L w") auto

text \<open>A second call of \<open>get_context\<close> builds nothing and gives the same answer.\<close>

lemma get_context_idempotent:
  "get_context L (snd (get_context L w)) = (fst (get_context L w), snd (get_context L w))"
  "ctx_events (snd (get_context L w)) = []"
  by (simp_all add: get_context_def pthread_once_def init_context_def ctx_events_def Let_def)

subsection \<open>Views and pointers\<close>

lemma max_ptr_ge: "v \<in> set vs \<Longrightarrow> fst v \<le> max_ptr vs"
  by (induction vs) auto

lemma remove_view_above [simp]: "max_ptr vs < p \<Longrightarrow> remove_view p vs = vs"
  unfolding remove_view_def by (rule filter_True) (auto dest: max_ptr_ge)

lemma remove_view_Cons [simp]:
  "remove_view p (v # vs) = (if fst v = p then remove_view p vs else v # remove_view p vs)"
  by (simp add: remove_view_def)

lemma map_of_above [simp]: "max_ptr vs < p \<Longrightarrow> map_of vs p = None"
  by (induction vs) (auto split: if_splits)

lemma GetByteArrayElements_granted:
  "GetByteArrayElements w a =
     (if granted (get_results w) 0
      then (fresh_ptr (views w),
            w\<lparr>views := (fresh_ptr (views w), a, arrays w a) # views w,
              get_results := tl (get_results w),
              trace := trace w @ [Get_elements a (fresh_ptr (views w))]\<rparr>)
      else (0, w\<lparr>get_results := tl (get_results w), trace := trace w @ [Get_elements a 0]\<rparr>))"
  by (simp add: GetByteArrayElements_def granted_def Let_def split: list.splits bool.splits)

lemma granted_tl [simp]: "granted (tl gr) k = granted gr (Suc k)"
  by (cases gr) (simp_all add: granted_def)

lemma granted1_iff: "granted1 w \<longleftrightarrow> granted (get_results w) 0"
proof (cases "get_results w")
  case Nil
  then show ?thesis by (simp add: granted1_def granted_def)
next
  case (Cons g rest)
  then show ?thesis by (cases g) (simp_all add: granted1_def granted_def)
qed

lemma granted3_iff:
  "granted3 w \<longleftrightarrow> granted (get_results w) 0 \<and> granted (get_results w) (Suc 0)
     \<and> granted (get_results w) (Suc (Suc 0))"
proof (cases "get_results w")
  case Nil
  then show ?thesis by (simp add: granted3_def granted_def)
next
  case (Cons g1 r1)
  note c1 = this
  show ?thesis
  proof (cases r1)
    case Nil
    with c1 show ?thesis by (simp add: granted3_def granted_def)
  next
    case (Cons g2 r2)
    note c2 = this
    show ?thesis
    proof (cases r2)
      case Nil
      with c1 c2 show ?thesis by (simp add: granted3_def granted_def)
    next
      case (Cons g3 r3)
      with c1 c2 show ?thesis
        by (cases g1; cases g2; cases g3) (simp_all add: granted3_def granted_def)
    qed
  qed
qed

lemma granted3_granted1: "granted3 w \<Longrightarrow> granted1 w"
  by (simp add: granted3_iff granted1_iff)

lemmas jni_defs = GetArrayLength_def GetByteArrayElements_granted ReleaseByteArrayElements_def
  read_bytes_def log_call_def release_if_def release_acquired_def cleanup_def fresh_ptr_def Let_def

subsection \<open>isValidPubKey, path by path\<close>

lemma isValidPubKey_no_context:
  assumes "get_context L w = (None, w1)"
  shows "isValidPubKey L w a = Some (False, w1)"
  using assms by (simp add: isValidPubKey_def)

lemma isValidPubKey_bad_length:
  assumes "get_context L w = (x, w1)" "\<not> pubkey_length w1 a"
  shows "isValidPubKey L w a = Some (False, w1)"
  using assms by (cases x) (simp_all add: isValidPubKey_def GetArrayLength_def pubkey_length_def)

lemma isValidPubKey_no_view:
  assumes "get_context L w = (Some c, w1)" "pubkey_length w1 a" "\<not> granted1 w1"
  shows "isValidPubKey L w a =
    Some (False, w1\<lparr>get_results := tl (get_results w1), trace := trace w1 @ [Get_elements a 0]\<rparr>)"
  using assms by (auto simp add: isValidPubKey_def jni_defs pubkey_length_def granted1_iff)

lemma isValidPubKey_parse:
  assumes "get_context L w = (Some c, w1)" "pubkey_length w1 a" "granted1 w1"
  shows "isValidPubKey L w a =
    Some (fst (secp256k1_ec_pubkey_parse L c (arrays w1 a)) = 1,
      w1\<lparr>get_results := tl (get_results w1),
         trace := trace w1 @ [Get_elements a (fresh_ptr (views w1)), Ec_pubkey_parse,
           Release_elements a (fresh_ptr (views w1)) JNI_ABORT]\<rparr>)"
  using assms by (auto simp add: isValidPubKey_def jni_defs pubkey_length_def granted1_iff)

subsection \<open>ecdsaVerify, path by path\<close>

lemma ecdsaVerify_no_context:
  assumes "get_context L w = (None, w1)"
  shows "ecdsaVerify L w m s k = Some (False, w1)"
  using assms by (simp add: ecdsaVerify_def)

lemma ecdsaVerify_bad_length:
  assumes "get_context L w = (x, w1)" "\<not> ecdsa_lengths w1 m s k"
  shows "ecdsaVerify L w m s k = Some (False, w1)"
  using assms by (cases x) (auto simp add: ecdsaVerify_def GetArrayLength_def ecdsa_lengths_def)

lemma ecdsaVerify_no_view:
  assumes "get_context L w = (Some c, w1)" "ecdsa_lengths w1 m s k" "\<not> granted3 w1"
  shows "outcome w1 (ecdsaVerify L w m s k) False []"
  using assms
  by (auto simp add: ecdsaVerify_def jni_defs ecdsa_lengths_def granted3_iff outcome_def
      lib_calls_def)

lemma ecdsaVerify_pubkey_fails:
  assumes "get_context L w = (Some c, w1)" "ecdsa_lengths w1 m s k" "granted3 w1"
    "fst (secp256k1_ec_pubkey_parse L c (arrays w1 k)) \<noteq> 1"
  shows "ecdsaVerify L w m s k = Some (False, three_views w1 m s k [Ec_pubkey_parse])"
  using assms
  by (auto simp add: ecdsaVerify_def jni_defs ecdsa_lengths_def granted3_iff three_views_def
      split: prod.splits)

lemma ecdsaVerify_signature_fails:
  assumes "get_context L w = (Some c, w1)" "ecdsa_lengths w1 m s k" "granted3 w1"
    "fst (secp256k1_ec_pubkey_parse L c (arrays w1 k)) = 1"
    "fst (secp256k1_ecdsa_signature_parse_compact L c (arrays w1 s)) \<noteq> 1"
  shows "ecdsaVerify L w m s k =
    Some (False, three_views w1 m s k [Ec_pubkey_parse, Ecdsa_signature_parse_compact])"
  using assms
  by (auto simp add: ecdsaVerify_def jni_defs ecdsa_lengths_def granted3_iff three_views_def
      split: prod.splits)

lemma ecdsaVerify_verifies:
  assumes "get_context L w = (Some c, w1)" "ecdsa_lengths w1 m s k" "granted3 w1"
    "secp256k1_ec_pubkey_parse L c (arrays w1 k) = (1, pubkey)"
    "secp256k1_ecdsa_signature_parse_compact L c (arrays w1 s) = (1, sig)"
  shows "ecdsaVerify L w m s k =
    Some (secp256k1_ecdsa_verify L c sig (arrays w1 m) pubkey = 1,
      three_views w1 m s k [Ec_pubkey_parse, Ecdsa_signature_parse_compact, Ecdsa_verify])"
  using assms
  by (auto simp add: ecdsaVerify_def jni_defs ecdsa_lengths_def granted3_iff three_views_def
      split: prod.splits)

subsection \<open>schnorrVerify, path by path\<close>

lemma schnorrVerify_no_context:
  assumes "get_context L w = (None, w1)"
  shows "schnorrVerify L w s m k = Some (False, w1)"
  using assms by (simp add: schnorrVerify_def)

lemma schnorrVerify_bad_length:
  assumes "get_context L w = (x, w1)" "\<not> schnorr_lengths w1 s k"
  shows "schnorrVerify L w s m k = Some (False, w1)"
  using assms by (cases x) (auto simp add: schnorrVerify_def GetArrayLength_def schnorr_lengths_def)

lemma schnorrVerify_no_view:
  assumes "get_context L w = (Some c, w1)" "schnorr_lengths w1 s k" "\<not> granted3 w1"
  shows "outcome w1 (schnorrVerify L w s m k) False []"
  using assms
  by (auto simp add: schnorrVerify_def jni_defs schnorr_lengths_def granted3_iff outcome_def
      lib_calls_def)

lemma schnorrVerify_pubkey_fails:
  assumes "get_context L w = (Some c, w1)" "schnorr_lengths w1 s k" "granted3 w1"
    "fst (secp256k1_xonly_pubkey_parse L c (arrays w1 k)) \<noteq> 1"
  shows "schnorrVerify L w s m k = Some (False, three_views w1 s m k [Xonly_pubkey_parse])"
  using assms
  by (auto simp add: schnorrVerify_def jni_defs schnorr_lengths_def granted3_iff three_views_def
      split: prod.splits)

lemma schnorrVerify_verifies:
  assumes "get_context L w = (Some c, w1)" "schnorr_lengths w1 s k" "granted3 w1"
    "secp256k1_xonly_pubkey_parse L c (arrays w1 k) = (1, xonly_pubkey)"
  shows "schnorrVerify L w s m k =
    Some (secp256k1_schnorrsig_verify L c (arrays w1 s) (arrays w1 m) xonly_pubkey = 1,
      three_views w1 s m k [Xonly_pubkey_parse, Schnorrsig_verify])"
  using assms
  by (auto simp add: schnorrVerify_def jni_defs schnorr_lengths_def granted3_iff three_views_def
      split: prod.splits)

subsection \<open>Outcomes\<close>

lemma outcome_unchanged: "outcome w1 (Some (b, w1)) b []"
  by (simp add: outcome_def lib_calls_def)

lemma outcome_result: "outcome w1 r b libs \<Longrightarrow> map_option fst r = Some b"
  by (auto simp add: outcome_def)

lemma outcome_one_view:
  "outcome w1 (Some (b, w1\<lparr>get_results := gr, trace := trace w1 @ [Get_elements a 0]\<rparr>)) b []"
  "outcome w1 (Some (b, w1\<lparr>get_results := gr,
       trace := trace w1 @ [Get_elements a (fresh_ptr (views w1)), Ec_pubkey_parse,
         Release_elements a (fresh_ptr (views w1)) JNI_ABORT]\<rparr>)) b [Ec_pubkey_parse]"
  by (simp_all add: outcome_def lib_calls_def fresh_ptr_def)

lemma outcome_three_views:
  "outcome w1 (Some (b, three_views w1 a1 a2 a3 [Ec_pubkey_parse])) b [Ec_pubkey_parse]"
  "outcome w1 (Some (b, three_views w1 a1 a2 a3 [Ec_pubkey_parse, Ecdsa_signature_parse_compact]))
     b [Ec_pubkey_parse, Ecdsa_signature_parse_compact]"
  "outcome w1 (Some (b, three_views w1 a1 a2 a3
       [Ec_pubkey_parse, Ecdsa_signature_parse_compact, Ecdsa_verify]))
     b [Ec_pubkey_parse, Ecdsa_signature_parse_compact, Ecdsa_verify]"
  "outcome w1 (Some (b, three_views w1 a1 a2 a3 [Xonly_pubkey_parse])) b [Xonly_pubkey_parse]"
  "outcome w1 (Some (b, three_views w1 a1 a2 a3 [Xonly_pubkey_parse, Schnorrsig_verify]))
     b [Xonly_pubkey_parse, Schnorrsig_verify]"
  by (simp_all add: outcome_def three_views_def Let_def lib_calls_def fresh_ptr_def)

lemma acquired_append: "acquired (xs @ ys) = acquired xs @ acquired ys"
  by (induction xs rule: acquired.induct) simp_all

lemma released_append: "released (xs @ ys) = released xs @ released ys"
  by (induction xs rule: released.induct) simp_all

lemma release_modes_append: "release_modes (xs @ ys) = release_modes xs @ release_modes ys"
  by (induction xs rule: release_modes.induct) simp_all

lemma ctx_events_silent:
  "acquired (ctx_events w) = []" "released (ctx_events w) = []"
  "release_modes (ctx_events w) = []" "lib_calls (ctx_events w) = []"
  by (simp_all add: ctx_events_def lib_calls_def)

text \<open>An outcome against the world that \<open>get_context\<close> left, read against the world in which
  the call started.\<close>

lemma outcome_from_start:
  assumes "outcome (snd (get_context L w)) r b libs"
  shows "\<exists>w'. r = Some (b, w') \<and> ctx w' = fst (get_context L w) \<and> ctx_init_once w'
     \<and> arrays w' = arrays w \<and> views w' = views w
     \<and> lib_calls (new_events w w') = libs
     \<and> released (new_events w w') = acquired (new_events w w')
     \<and> distinct (map snd (acquired (new_events w w')))
     \<and> set (release_modes (new_events w w')) \<subseteq> {JNI_ABORT}"
proof -
  from assms obtain w' evs where r: "r = Some (b, w')"
    and c: "ctx w' = ctx (snd (get_context L w))"
      "ctx_init_once w' = ctx_init_once (snd (get_context L w))"
    and f: "arrays w' = arrays (snd (get_context L w))" "views w' = views (snd (get_context L w))"
    and t: "trace w' = trace (snd (get_context L w)) @ evs"
    and e: "lib_calls evs = libs" "released evs = acquired evs" "distinct (map snd (acquired evs))"
      "set (release_modes evs) \<subseteq> {JNI_ABORT}"
    unfolding outcome_def by blast
  have n: "new_events w w' = ctx_events w @ evs"
    using t by (simp add: new_events_def get_context_frame)
  have "lib_calls (new_events w w') = libs"
    using n e(1) ctx_events_silent(4)[of w] by (simp add: lib_calls_def)
  moreover have "released (new_events w w') = acquired (new_events w w')"
    using n e(2) by (simp add: acquired_append released_append ctx_events_silent)
  moreover have "distinct (map snd (acquired (new_events w w')))"
    using n e(3) by (simp add: acquired_append ctx_events_silent)
  moreover have "set (release_modes (new_events w w')) \<subseteq> {JNI_ABORT}"
    using n e(4) by (simp add: release_modes_append ctx_events_silent)
  ultimately show ?thesis
    using r c f by (simp add: get_context_frame)
qed

subsection \<open>Each operation in one statement\<close>

lemma isValidPubKey_summary:
  "outcome (snd (get_context L w)) (isValidPubKey L w a)
     (case fst (get_context L w) of None \<Rightarrow> False
      | Some c \<Rightarrow> granted1 w \<and> pubkey_accepts L c (arrays w a))
     (case fst (get_context L w) of None \<Rightarrow> []
      | Some c \<Rightarrow> if pubkey_length w a \<and> granted1 w then [Ec_pubkey_parse] else [])"
proof -
  obtain x w1 where gc: "get_context L w = (x, w1)" and fs: "fst (get_context L w) = x"
    "snd (get_context L w) = w1" and fr: "arrays w1 = arrays w" "get_results w1 = get_results w"
    by (rule get_context_split)
  have g: "granted1 w1 = granted1 w" and l: "pubkey_length w1 a = pubkey_length w a"
    using fr by (simp_all add: granted1_def pubkey_length_def)
  show ?thesis
  proof (cases x)
    case None
    then show ?thesis
      using isValidPubKey_no_context[of L w w1 a] gc fs by (simp add: outcome_unchanged)
  next
    case (Some c)
    note c = this
    show ?thesis
    proof (cases "pubkey_length w a")
      case False
      then have "isValidPubKey L w a = Some (False, w1)"
        using isValidPubKey_bad_length[of L w x w1 a] gc l by simp
      moreover have "\<not> pubkey_accepts L c (arrays w a)"
        using False by (auto simp add: pubkey_accepts_def pubkey_length_def)
      ultimately show ?thesis
        using False fs c by (simp add: outcome_unchanged)
    next
      case True
      note len = this
      show ?thesis
      proof (cases "granted1 w")
        case False
        then show ?thesis
          using isValidPubKey_no_view[of L w c w1 a] gc fs c l g len
          by (simp add: outcome_one_view)
      next
        case True
        have "pubkey_accepts L c (arrays w a)
            \<longleftrightarrow> fst (secp256k1_ec_pubkey_parse L c (arrays w a)) = 1"
          using len by (auto simp add: pubkey_accepts_def pubkey_length_def)
        then show ?thesis
          using isValidPubKey_parse[of L w c w1 a] gc fs fr c l g len True
          by (simp add: outcome_one_view)
      qed
    qed
  qed
qed

lemma ecdsaVerify_summary:
  "outcome (snd (get_context L w)) (ecdsaVerify L w m s k)
     (case fst (get_context L w) of None \<Rightarrow> False
      | Some c \<Rightarrow> granted3 w \<and> ecdsa_accepts L c (arrays w m) (arrays w s) (arrays w k))
     (case fst (get_context L w) of None \<Rightarrow> []
      | Some c \<Rightarrow> if ecdsa_lengths w m s k \<and> granted3 w
                  then ecdsa_calls L c (arrays w s) (arrays w k) else [])"
proof -
  obtain x w1 where gc: "get_context L w = (x, w1)" and fs: "fst (get_context L w) = x"
    "snd (get_context L w) = w1" and fr: "arrays w1 = arrays w" "get_results w1 = get_results w"
    by (rule get_context_split)
  have g: "granted3 w1 = granted3 w" and l: "ecdsa_lengths w1 m s k = ecdsa_lengths w m s k"
    using fr by (simp_all add: granted3_def ecdsa_lengths_def)
  show ?thesis
  proof (cases x)
    case None
    then show ?thesis
      using ecdsaVerify_no_context[of L w w1 m s k] gc fs by (simp add: outcome_unchanged)
  next
    case (Some c)
    note c = this
    show ?thesis
    proof (cases "ecdsa_lengths w m s k")
      case False
      then have "ecdsaVerify L w m s k = Some (False, w1)"
        using ecdsaVerify_bad_length[of L w x w1 m s k] gc l by simp
      moreover have "\<not> ecdsa_accepts L c (arrays w m) (arrays w s) (arrays w k)"
        using False by (auto simp add: ecdsa_accepts_def ecdsa_lengths_def)
      ultimately show ?thesis
        using False fs c by (simp add: outcome_unchanged)
    next
      case True
      note len = this
      show ?thesis
      proof (cases "granted3 w")
        case False
        then show ?thesis
          using ecdsaVerify_no_view[of L w c w1 m s k] gc fs c l g len by simp
      next
        case True
        note gr = this
        obtain r1 pubkey where p1: "secp256k1_ec_pubkey_parse L c (arrays w k) = (r1, pubkey)"
          by (cases "secp256k1_ec_pubkey_parse L c (arrays w k)")
        obtain r2 sig where p2:
          "secp256k1_ecdsa_signature_parse_compact L c (arrays w s) = (r2, sig)"
          by (cases "secp256k1_ecdsa_signature_parse_compact L c (arrays w s)")
        have hyp: "get_context L w = (Some c, w1)" "ecdsa_lengths w1 m s k" "granted3 w1"
          using gc c l g len gr by simp_all
        show ?thesis
        proof (cases "r1 = 1")
          case False
          then show ?thesis
            using ecdsaVerify_pubkey_fails[OF hyp] p1 fr fs c len gr
            by (simp add: outcome_three_views ecdsa_accepts_def ecdsa_calls_def)
        next
          case True
          note r1 = this
          show ?thesis
          proof (cases "r2 = 1")
            case False
            then show ?thesis
              using ecdsaVerify_signature_fails[OF hyp] p1 p2 r1 fr fs c len gr
              by (simp add: outcome_three_views ecdsa_accepts_def ecdsa_calls_def)
          next
            case True
            then show ?thesis
              using ecdsaVerify_verifies[OF hyp, of pubkey sig] p1 p2 r1 fr fs c len gr
              by (simp add: outcome_three_views ecdsa_accepts_def ecdsa_calls_def
                  ecdsa_lengths_def)
          qed
        qed
      qed
    qed
  qed
qed

lemma schnorrVerify_summary:
  "outcome (snd (get_context L w)) (schnorrVerify L w s m k)
     (case fst (get_context L w) of None \<Rightarrow> False
      | Some c \<Rightarrow> granted3 w \<and> schnorr_accepts L c (arrays w s) (arrays w m) (arrays w k))
     (case fst (get_context L w) of None \<Rightarrow> []
      | Some c \<Rightarrow> if schnorr_lengths w s k \<and> granted3 w
                  then schnorr_calls L c (arrays w k) else [])"
proof -
  obtain x w1 where gc: "get_context L w = (x, w1)" and fs: "fst (get_context L w) = x"
    "snd (get_context L w) = w1" and fr: "arrays w1 = arrays w" "get_results w1 = get_results w"
    by (rule get_context_split)
  have g: "granted3 w1 = granted3 w" and l: "schnorr_lengths w1 s k = schnorr_lengths w s k"
    using fr by (simp_all add: granted3_def schnorr_lengths_def)
  show ?thesis
  proof (cases x)
    case None
    then show ?thesis
      using schnorrVerify_no_context[of L w w1 s m k] gc fs by (simp add: outcome_unchanged)
  next
    case (Some c)
    note c = this
    show ?thesis
    proof (cases "schnorr_lengths w s k")
      case False
      then have "schnorrVerify L w s m k = Some (False, w1)"
        using schnorrVerify_bad_length[of L w x w1 s k m] gc l by simp
      moreover have "\<not> schnorr_accepts L c (arrays w s) (arrays w m) (arrays w k)"
        using False by (auto simp add: schnorr_accepts_def schnorr_lengths_def)
      ultimately show ?thesis
        using False fs c by (simp add: outcome_unchanged)
    next
      case True
      note len = this
      show ?thesis
      proof (cases "granted3 w")
        case False
        then show ?thesis
          using schnorrVerify_no_view[of L w c w1 s k m] gc fs c l g len by simp
      next
        case True
        note gr = this
        obtain r1 xonly_pubkey where
          p1: "secp256k1_xonly_pubkey_parse L c (arrays w k) = (r1, xonly_pubkey)"
          by (cases "secp256k1_xonly_pubkey_parse L c (arrays w k)")
        have hyp: "get_context L w = (Some c, w1)" "schnorr_lengths w1 s k" "granted3 w1"
          using gc c l g len gr by simp_all
        show ?thesis
        proof (cases "r1 = 1")
          case False
          then show ?thesis
            using schnorrVerify_pubkey_fails[OF hyp, of m] p1 fr fs c len gr
            by (simp add: outcome_three_views schnorr_accepts_def schnorr_calls_def)
        next
          case True
          then show ?thesis
            using schnorrVerify_verifies[OF hyp, of xonly_pubkey m] p1 fr fs c len gr
            by (simp add: outcome_three_views schnorr_accepts_def schnorr_calls_def
                schnorr_lengths_def)
        qed
      qed
    qed
  qed
qed

section \<open>The claims\<close>

text \<open>
  C1. For every three byte arrays, \<open>ecdsaVerify\<close> returns true only if the context exists, the
  digest has 32 bytes, the signature 64 and the key 33, the key parses, the signature parses,
  and the library's ECDSA verification of the parsed signature over the digest under the
  parsed key succeeds: any failure in any step yields false. In a call that gets the context
  and its three views it returns true exactly in that case, and the library is called in the
  order key parse, signature parse, verification, where a failed key parse ends the calls
  before the signature is parsed.
\<close>

theorem ecdsaVerify_iff:
  "(\<forall>w'. ecdsaVerify L w msg32 sig64 pubKey33 = Some (True, w') \<longrightarrow>
      (\<exists>c'. fst (get_context L w) = Some c'
         \<and> ecdsa_accepts L c' (arrays w msg32) (arrays w sig64) (arrays w pubKey33)))
   \<and> (fst (get_context L w) = Some c \<and> granted3 w \<longrightarrow>
      (\<exists>w'. ecdsaVerify L w msg32 sig64 pubKey33 =
           Some (ecdsa_accepts L c (arrays w msg32) (arrays w sig64) (arrays w pubKey33), w')
         \<and> lib_calls (new_events w w') =
             (if ecdsa_lengths w msg32 sig64 pubKey33
              then ecdsa_calls L c (arrays w sig64) (arrays w pubKey33) else [])))"
proof (intro conjI allI impI)
  fix w'
  assume "ecdsaVerify L w msg32 sig64 pubKey33 = Some (True, w')"
  then show "\<exists>c'. fst (get_context L w) = Some c'
      \<and> ecdsa_accepts L c' (arrays w msg32) (arrays w sig64) (arrays w pubKey33)"
    using ecdsaVerify_summary[of L w msg32 sig64 pubKey33]
    by (cases "fst (get_context L w)") (auto simp add: outcome_def)
next
  assume "fst (get_context L w) = Some c \<and> granted3 w"
  then show "\<exists>w'. ecdsaVerify L w msg32 sig64 pubKey33 =
        Some (ecdsa_accepts L c (arrays w msg32) (arrays w sig64) (arrays w pubKey33), w')
      \<and> lib_calls (new_events w w') =
          (if ecdsa_lengths w msg32 sig64 pubKey33
           then ecdsa_calls L c (arrays w sig64) (arrays w pubKey33) else [])"
    using outcome_from_start[OF ecdsaVerify_summary[of L w msg32 sig64 pubKey33]] by auto
qed

theorem ecdsaVerify_iff_witness:
  "fst (get_context example_lib fresh_world) = Some () \<and> granted3 fresh_world
   \<and> ecdsa_accepts example_lib () (arrays fresh_world 0) (arrays fresh_world 1) (arrays fresh_world 2)
   \<and> map_option fst (ecdsaVerify example_lib fresh_world 0 1 2) = Some True
   \<and> map_option fst (ecdsaVerify example_lib fresh_world 0 1 4) = Some False"
proof -
  have h: "fst (get_context example_lib fresh_world) = Some () \<and> granted3 fresh_world"
    by (simp add: get_context_def pthread_once_def init_context_def example_lib_def
        fresh_world_def granted3_def)
  have a: "ecdsa_accepts example_lib () (arrays fresh_world 0) (arrays fresh_world 1)
      (arrays fresh_world 2)"
    by (simp add: ecdsa_accepts_def example_lib_def fresh_world_def example_arrays_def)
  have b: "\<not> ecdsa_accepts example_lib () (arrays fresh_world 0) (arrays fresh_world 1)
      (arrays fresh_world 4)"
    by (simp add: ecdsa_accepts_def example_lib_def fresh_world_def example_arrays_def)
  from ecdsaVerify_iff[of example_lib fresh_world 0 1 2 "()"] h a
  have "map_option fst (ecdsaVerify example_lib fresh_world 0 1 2) = Some True" by auto
  moreover from ecdsaVerify_iff[of example_lib fresh_world 0 1 4 "()"] h b
  have "map_option fst (ecdsaVerify example_lib fresh_world 0 1 4) = Some False" by auto
  ultimately show ?thesis using h a by blast
qed

text \<open>
  C2. For every three byte arrays, \<open>schnorrVerify\<close> returns true only if the context exists,
  the signature has 64 bytes and the key 32, the key parses as an x-only key, and the
  library's BIP-340 verification of the 64 signature bytes over the whole message array, as
  it is and of whatever length, under the parsed key succeeds. In a call that gets the context
  and its three views it returns true exactly in that case, and a failed key parse ends the
  library calls before the verification.
\<close>

theorem schnorrVerify_iff:
  "(\<forall>w'. schnorrVerify L w sig64 msg pubKey32 = Some (True, w') \<longrightarrow>
      (\<exists>c'. fst (get_context L w) = Some c'
         \<and> schnorr_accepts L c' (arrays w sig64) (arrays w msg) (arrays w pubKey32)))
   \<and> (fst (get_context L w) = Some c \<and> granted3 w \<longrightarrow>
      (\<exists>w'. schnorrVerify L w sig64 msg pubKey32 =
           Some (schnorr_accepts L c (arrays w sig64) (arrays w msg) (arrays w pubKey32), w')
         \<and> lib_calls (new_events w w') =
             (if schnorr_lengths w sig64 pubKey32
              then schnorr_calls L c (arrays w pubKey32) else [])))"
proof (intro conjI allI impI)
  fix w'
  assume "schnorrVerify L w sig64 msg pubKey32 = Some (True, w')"
  then show "\<exists>c'. fst (get_context L w) = Some c'
      \<and> schnorr_accepts L c' (arrays w sig64) (arrays w msg) (arrays w pubKey32)"
    using schnorrVerify_summary[of L w sig64 msg pubKey32]
    by (cases "fst (get_context L w)") (auto simp add: outcome_def)
next
  assume "fst (get_context L w) = Some c \<and> granted3 w"
  then show "\<exists>w'. schnorrVerify L w sig64 msg pubKey32 =
        Some (schnorr_accepts L c (arrays w sig64) (arrays w msg) (arrays w pubKey32), w')
      \<and> lib_calls (new_events w w') =
          (if schnorr_lengths w sig64 pubKey32
           then schnorr_calls L c (arrays w pubKey32) else [])"
    using outcome_from_start[OF schnorrVerify_summary[of L w sig64 msg pubKey32]] by auto
qed

theorem schnorrVerify_iff_witness:
  "fst (get_context example_lib fresh_world) = Some () \<and> granted3 fresh_world
   \<and> schnorr_accepts example_lib () (arrays fresh_world 1) (arrays fresh_world 3) (arrays fresh_world 0)
   \<and> map_option fst (schnorrVerify example_lib fresh_world 1 3 0) = Some True
   \<and> map_option fst (schnorrVerify example_lib fresh_world 1 2 0) = Some True"
proof -
  have h: "fst (get_context example_lib fresh_world) = Some () \<and> granted3 fresh_world"
    by (simp add: get_context_def pthread_once_def init_context_def example_lib_def
        fresh_world_def granted3_def)
  have a: "schnorr_accepts example_lib () (arrays fresh_world 1) (arrays fresh_world 3)
      (arrays fresh_world 0)"
    by (simp add: schnorr_accepts_def example_lib_def fresh_world_def example_arrays_def)
  have b: "schnorr_accepts example_lib () (arrays fresh_world 1) (arrays fresh_world 2)
      (arrays fresh_world 0)"
    by (simp add: schnorr_accepts_def example_lib_def fresh_world_def example_arrays_def)
  from schnorrVerify_iff[of example_lib fresh_world 1 3 0 "()"] h a
  have "map_option fst (schnorrVerify example_lib fresh_world 1 3 0) = Some True" by auto
  moreover from schnorrVerify_iff[of example_lib fresh_world 1 2 0 "()"] h b
  have "map_option fst (schnorrVerify example_lib fresh_world 1 2 0) = Some True" by auto
  ultimately show ?thesis using h a by blast
qed

text \<open>
  C3. For every byte array, \<open>isValidPubKey\<close> returns true only if the context exists, the
  array has 33 or 65 bytes and the library parses it as a public key; every other length
  yields false, with no call into the library. In a call that gets the context and its view
  it returns true exactly in that case, and the key parse is the only library call it makes:
  no verification.
\<close>

theorem isValidPubKey_iff:
  "(\<forall>w'. isValidPubKey L w pubKey = Some (True, w') \<longrightarrow>
      (\<exists>c'. fst (get_context L w) = Some c' \<and> pubkey_accepts L c' (arrays w pubKey)))
   \<and> (\<not> pubkey_length w pubKey \<longrightarrow>
      (\<exists>w'. isValidPubKey L w pubKey = Some (False, w') \<and> lib_calls (new_events w w') = []))
   \<and> (fst (get_context L w) = Some c \<and> granted1 w \<longrightarrow>
      (\<exists>w'. isValidPubKey L w pubKey = Some (pubkey_accepts L c (arrays w pubKey), w')
         \<and> lib_calls (new_events w w') =
             (if pubkey_length w pubKey then [Ec_pubkey_parse] else [])))"
proof (intro conjI allI impI)
  fix w'
  assume "isValidPubKey L w pubKey = Some (True, w')"
  then show "\<exists>c'. fst (get_context L w) = Some c' \<and> pubkey_accepts L c' (arrays w pubKey)"
    using isValidPubKey_summary[of L w pubKey]
    by (cases "fst (get_context L w)") (auto simp add: outcome_def)
next
  assume "\<not> pubkey_length w pubKey"
  then show "\<exists>w'. isValidPubKey L w pubKey = Some (False, w') \<and> lib_calls (new_events w w') = []"
    using outcome_from_start[OF isValidPubKey_summary[of L w pubKey]]
    by (cases "fst (get_context L w)") (auto simp add: pubkey_accepts_def pubkey_length_def)
next
  assume "fst (get_context L w) = Some c \<and> granted1 w"
  then show "\<exists>w'. isValidPubKey L w pubKey = Some (pubkey_accepts L c (arrays w pubKey), w')
      \<and> lib_calls (new_events w w') = (if pubkey_length w pubKey then [Ec_pubkey_parse] else [])"
    using outcome_from_start[OF isValidPubKey_summary[of L w pubKey]] by auto
qed

theorem isValidPubKey_iff_witness:
  "fst (get_context example_lib fresh_world) = Some () \<and> granted1 fresh_world
   \<and> pubkey_accepts example_lib () (arrays fresh_world 2)
   \<and> map_option fst (isValidPubKey example_lib fresh_world 2) = Some True
   \<and> \<not> pubkey_length fresh_world 1
   \<and> map_option fst (isValidPubKey example_lib fresh_world 1) = Some False"
proof -
  have h: "fst (get_context example_lib fresh_world) = Some () \<and> granted1 fresh_world"
    by (simp add: get_context_def pthread_once_def init_context_def example_lib_def
        fresh_world_def granted1_def)
  have a: "pubkey_accepts example_lib () (arrays fresh_world 2)"
    by (simp add: pubkey_accepts_def example_lib_def fresh_world_def example_arrays_def)
  have b: "\<not> pubkey_length fresh_world 1"
    by (simp add: pubkey_length_def fresh_world_def example_arrays_def)
  from isValidPubKey_iff[of example_lib fresh_world 2 "()"] h a
  have "map_option fst (isValidPubKey example_lib fresh_world 2) = Some True" by auto
  moreover from isValidPubKey_iff[of example_lib fresh_world 1 "()"] b
  have "map_option fst (isValidPubKey example_lib fresh_world 1) = Some False" by auto
  ultimately show ?thesis using h a b by blast
qed

text \<open>
  C4. For every library, every world and every input arrays (empty, all zero, of any length),
  each of the three operations returns a boolean: the C program never reads through a
  pointer that is not a live view or beyond a view's length, and never releases a pointer
  that is not a live view. The boolean is true only if the context exists and the operation
  accepts its input, so no context, a wrong length, a failed parse and a failed verification
  all give false.
\<close>

theorem verification_total:
  "(\<exists>b w'. isValidPubKey L w pubKey = Some (b, w')
      \<and> (b \<longrightarrow> (\<exists>c. fst (get_context L w) = Some c \<and> pubkey_accepts L c (arrays w pubKey))))
   \<and> (\<exists>b w'. ecdsaVerify L w msg32 sig64 pubKey33 = Some (b, w')
      \<and> (b \<longrightarrow> (\<exists>c. fst (get_context L w) = Some c
            \<and> ecdsa_accepts L c (arrays w msg32) (arrays w sig64) (arrays w pubKey33))))
   \<and> (\<exists>b w'. schnorrVerify L w sig msg pubKey32 = Some (b, w')
      \<and> (b \<longrightarrow> (\<exists>c. fst (get_context L w) = Some c
            \<and> schnorr_accepts L c (arrays w sig) (arrays w msg) (arrays w pubKey32))))"
proof (intro conjI)
  show "\<exists>b w'. isValidPubKey L w pubKey = Some (b, w')
      \<and> (b \<longrightarrow> (\<exists>c. fst (get_context L w) = Some c \<and> pubkey_accepts L c (arrays w pubKey)))"
    using isValidPubKey_summary[of L w pubKey]
    by (cases "fst (get_context L w)") (auto simp add: outcome_def)
  show "\<exists>b w'. ecdsaVerify L w msg32 sig64 pubKey33 = Some (b, w')
      \<and> (b \<longrightarrow> (\<exists>c. fst (get_context L w) = Some c
            \<and> ecdsa_accepts L c (arrays w msg32) (arrays w sig64) (arrays w pubKey33)))"
    using ecdsaVerify_summary[of L w msg32 sig64 pubKey33]
    by (cases "fst (get_context L w)") (auto simp add: outcome_def)
  show "\<exists>b w'. schnorrVerify L w sig msg pubKey32 = Some (b, w')
      \<and> (b \<longrightarrow> (\<exists>c. fst (get_context L w) = Some c
            \<and> schnorr_accepts L c (arrays w sig) (arrays w msg) (arrays w pubKey32)))"
    using schnorrVerify_summary[of L w sig msg pubKey32]
    by (cases "fst (get_context L w)") (auto simp add: outcome_def)
qed

theorem verification_total_witness:
  "map_option fst (isValidPubKey example_lib fresh_world 3) = Some False
   \<and> map_option fst (isValidPubKey example_lib fresh_world 4) = Some False
   \<and> map_option fst (ecdsaVerify example_lib fresh_world 0 1 4) = Some False
   \<and> map_option fst (schnorrVerify example_lib fresh_world 3 3 3) = Some False"
proof -
  have a: "\<not> pubkey_accepts example_lib c (arrays fresh_world 3)"
    "\<not> pubkey_accepts example_lib c (arrays fresh_world 4)"
    "\<not> ecdsa_accepts example_lib c (arrays fresh_world 0) (arrays fresh_world 1)
        (arrays fresh_world 4)"
    "\<not> schnorr_accepts example_lib c (arrays fresh_world 3) (arrays fresh_world 3)
        (arrays fresh_world 3)" for c
    by (simp_all add: pubkey_accepts_def ecdsa_accepts_def schnorr_accepts_def example_lib_def
        fresh_world_def example_arrays_def)
  from verification_total[of example_lib fresh_world 3 0 1 4 3 3 3] a
  have "map_option fst (isValidPubKey example_lib fresh_world 3) = Some False"
    "map_option fst (ecdsaVerify example_lib fresh_world 0 1 4) = Some False"
    "map_option fst (schnorrVerify example_lib fresh_world 3 3 3) = Some False"
    by auto
  moreover from verification_total[of example_lib fresh_world 4 0 1 4 3 3 3] a
  have "map_option fst (isValidPubKey example_lib fresh_world 4) = Some False"
    by auto
  ultimately show ?thesis by blast
qed

text \<open>
  C5. Every call of each of the three operations returns with the live views exactly as they
  were when it started, whatever path it takes. The list of views it gave back is the list of
  views it took, and no pointer occurs twice in it: each view taken during the call is given
  back exactly once before the call returns.
\<close>

theorem views_released:
  "(\<exists>b w'. isValidPubKey L w pubKey = Some (b, w') \<and> views w' = views w
      \<and> released (new_events w w') = acquired (new_events w w')
      \<and> distinct (map snd (acquired (new_events w w'))))
   \<and> (\<exists>b w'. ecdsaVerify L w msg32 sig64 pubKey33 = Some (b, w') \<and> views w' = views w
      \<and> released (new_events w w') = acquired (new_events w w')
      \<and> distinct (map snd (acquired (new_events w w'))))
   \<and> (\<exists>b w'. schnorrVerify L w sig msg pubKey32 = Some (b, w') \<and> views w' = views w
      \<and> released (new_events w w') = acquired (new_events w w')
      \<and> distinct (map snd (acquired (new_events w w'))))"
proof (intro conjI)
  show "\<exists>b w'. isValidPubKey L w pubKey = Some (b, w') \<and> views w' = views w
      \<and> released (new_events w w') = acquired (new_events w w')
      \<and> distinct (map snd (acquired (new_events w w')))"
    using outcome_from_start[OF isValidPubKey_summary[of L w pubKey]] by blast
  show "\<exists>b w'. ecdsaVerify L w msg32 sig64 pubKey33 = Some (b, w') \<and> views w' = views w
      \<and> released (new_events w w') = acquired (new_events w w')
      \<and> distinct (map snd (acquired (new_events w w')))"
    using outcome_from_start[OF ecdsaVerify_summary[of L w msg32 sig64 pubKey33]] by blast
  show "\<exists>b w'. schnorrVerify L w sig msg pubKey32 = Some (b, w') \<and> views w' = views w
      \<and> released (new_events w w') = acquired (new_events w w')
      \<and> distinct (map snd (acquired (new_events w w')))"
    using outcome_from_start[OF schnorrVerify_summary[of L w sig msg pubKey32]] by blast
qed

theorem views_released_witness:
  "map_option (views \<circ> snd) (isValidPubKey example_lib ready_world 2) = Some [(5, 7, [])]
   \<and> map_option (views \<circ> snd) (ecdsaVerify example_lib ready_world 0 1 2) = Some [(5, 7, [])]
   \<and> map_option (views \<circ> snd) (schnorrVerify example_lib ready_world 1 3 0) = Some [(5, 7, [])]
   \<and> map_option (acquired \<circ> new_events ready_world \<circ> snd)
        (ecdsaVerify example_lib ready_world 0 1 2) = Some [(0, 6), (1, 7), (2, 8)]
   \<and> map_option (released \<circ> new_events ready_world \<circ> snd)
        (ecdsaVerify example_lib ready_world 0 1 2) = Some [(0, 6), (1, 7), (2, 8)]"
proof -
  have v: "views ready_world = [(5, 7, [])]"
    by (simp add: ready_world_def)
  have gc: "get_context example_lib ready_world = (Some (), ready_world)"
    by (simp add: get_context_def pthread_once_def ready_world_def)
  have run: "ecdsaVerify example_lib ready_world 0 1 2 =
      Some (True, three_views ready_world 0 1 2
        [Ec_pubkey_parse, Ecdsa_signature_parse_compact, Ecdsa_verify])"
    using ecdsaVerify_verifies[OF gc, of 0 1 2 "arrays ready_world 2" "arrays ready_world 1"]
    by (simp add: ecdsa_lengths_def granted3_def ready_world_def example_arrays_def
        example_lib_def)
  have t: "map_option (acquired \<circ> new_events ready_world \<circ> snd)
        (ecdsaVerify example_lib ready_world 0 1 2) = Some [(0, 6), (1, 7), (2, 8)]"
    unfolding run by (simp add: three_views_def new_events_def fresh_ptr_def v)
  from views_released[of example_lib ready_world 2 0 1 2 1 3 0] v t
  show ?thesis by auto
qed

text \<open>
  C6, as the code has it. An input array of the wrong length makes each operation return
  false with no view taken and no call into the library for parsing or verifying: the world
  it leaves is the world \<open>get_context\<close> left. The context is fetched first, before any length
  is looked at, so the first call of a process builds the context even when the length is
  wrong.
\<close>

theorem wrong_length_rejected:
  "(\<not> pubkey_length w pubKey \<longrightarrow>
      isValidPubKey L w pubKey = Some (False, snd (get_context L w)))
   \<and> (\<not> ecdsa_lengths w msg32 sig64 pubKey33 \<longrightarrow>
      ecdsaVerify L w msg32 sig64 pubKey33 = Some (False, snd (get_context L w)))
   \<and> (\<not> schnorr_lengths w sig pubKey32 \<longrightarrow>
      schnorrVerify L w sig msg pubKey32 = Some (False, snd (get_context L w)))
   \<and> new_events w (snd (get_context L w)) = ctx_events w"
proof -
  obtain x w1 where gc: "get_context L w = (x, w1)" and fs: "snd (get_context L w) = w1"
    and fr: "arrays w1 = arrays w"
    by (rule get_context_split)
  have l: "pubkey_length w1 pubKey = pubkey_length w pubKey"
    "ecdsa_lengths w1 msg32 sig64 pubKey33 = ecdsa_lengths w msg32 sig64 pubKey33"
    "schnorr_lengths w1 sig pubKey32 = schnorr_lengths w sig pubKey32"
    using fr by (simp_all add: pubkey_length_def ecdsa_lengths_def schnorr_lengths_def)
  have "new_events w (snd (get_context L w)) = ctx_events w"
    by (simp add: new_events_def get_context_frame)
  then show ?thesis
    using isValidPubKey_bad_length[OF gc, of pubKey]
      ecdsaVerify_bad_length[OF gc, of msg32 sig64 pubKey33]
      schnorrVerify_bad_length[OF gc, of sig pubKey32 msg] l fs
    by simp
qed

theorem wrong_length_rejected_witness:
  "\<not> pubkey_length ready_world 0 \<and> \<not> ecdsa_lengths ready_world 0 1 1
   \<and> \<not> schnorr_lengths ready_world 1 2
   \<and> isValidPubKey example_lib ready_world 0 = Some (False, ready_world)
   \<and> ecdsaVerify example_lib ready_world 0 1 1 = Some (False, ready_world)
   \<and> schnorrVerify example_lib ready_world 1 3 2 = Some (False, ready_world)"
proof -
  have gc: "snd (get_context example_lib ready_world) = ready_world"
    by (simp add: get_context_def pthread_once_def ready_world_def)
  have l: "\<not> pubkey_length ready_world 0" "\<not> ecdsa_lengths ready_world 0 1 1"
    "\<not> schnorr_lengths ready_world 1 2"
    by (simp_all add: pubkey_length_def ecdsa_lengths_def schnorr_lengths_def ready_world_def
        example_arrays_def)
  from wrong_length_rejected[of ready_world 0 example_lib 0 1 1 1 2 3] l gc
  show ?thesis by simp
qed

text \<open>
  C6, as the claim states it, fails: in a process whose context has not been built, a call of
  \<open>isValidPubKey\<close> on an empty array returns false and leaves the context built.
\<close>

theorem wrong_length_builds_context:
  "GetArrayLength fresh_world 3 = 0 \<and> ctx_init_once fresh_world = False
   \<and> ctx fresh_world = None \<and> trace fresh_world = []
   \<and> map_option fst (isValidPubKey example_lib fresh_world 3) = Some False
   \<and> map_option (ctx_init_once \<circ> snd) (isValidPubKey example_lib fresh_world 3) = Some True
   \<and> map_option (ctx \<circ> snd) (isValidPubKey example_lib fresh_world 3) = Some (Some ())
   \<and> map_option (trace \<circ> snd) (isValidPubKey example_lib fresh_world 3)
       = Some [Context_create SECP256K1_CONTEXT_VERIFY]"
  by (simp add: isValidPubKey_def get_context_def pthread_once_def init_context_def
      GetArrayLength_def fresh_world_def example_lib_def example_arrays_def)

text \<open>
  C7. If \<open>get_context\<close> has no context to give (the construction failed, now or in an earlier
  call), each of the three operations returns false for every input, at once: the world it
  leaves is the world \<open>get_context\<close> left, in which the next call finds no context either.
\<close>

theorem no_context_false:
  assumes "fst (get_context L w) = None"
  shows "isValidPubKey L w pubKey = Some (False, snd (get_context L w))
    \<and> ecdsaVerify L w msg32 sig64 pubKey33 = Some (False, snd (get_context L w))
    \<and> schnorrVerify L w sig msg pubKey32 = Some (False, snd (get_context L w))
    \<and> fst (get_context L (snd (get_context L w))) = None"
proof -
  obtain x w1 where gc: "get_context L w = (x, w1)" and fs: "fst (get_context L w) = x"
    "snd (get_context L w) = w1"
    by (rule get_context_split)
  have x: "get_context L w = (None, w1)"
    using gc fs assms by simp
  have "fst (get_context L (snd (get_context L w))) = None"
    using assms by (simp add: get_context_def pthread_once_def init_context_def Let_def
        split: if_splits)
  then show ?thesis
    using isValidPubKey_no_context[OF x] ecdsaVerify_no_context[OF x]
      schnorrVerify_no_context[OF x] fs by simp
qed

theorem no_context_false_witness:
  "fst (get_context failing_lib fresh_world) = None
   \<and> map_option fst (isValidPubKey failing_lib fresh_world 2) = Some False
   \<and> map_option fst (ecdsaVerify failing_lib fresh_world 0 1 2) = Some False
   \<and> map_option fst (schnorrVerify failing_lib fresh_world 1 3 0) = Some False"
proof -
  have h: "fst (get_context failing_lib fresh_world) = None"
    by (simp add: get_context_def pthread_once_def init_context_def failing_lib_def
        example_lib_def fresh_world_def)
  from no_context_false[OF h, of 2 0 1 2 1 3 0] h
  show ?thesis by simp
qed

text \<open>
  C9. The boolean an operation returns is a function of the context it gets and of the bytes
  of its input arrays: two calls of the same operation that get the same context, on arrays
  with the same bytes, and to which JNI gives the same answers when they ask for their views,
  return the same boolean, in whatever worlds they run. And a call leaves the Java arrays and
  the live views as it found them: what it changes is the context, which it builds if no call
  has built it before.
\<close>

theorem verification_deterministic:
  assumes "fst (get_context L w1) = fst (get_context L w2)"
    and "take 3 (get_results w1) = take 3 (get_results w2)"
  shows "(arrays w1 k1 = arrays w2 k2 \<longrightarrow>
        map_option fst (isValidPubKey L w1 k1) = map_option fst (isValidPubKey L w2 k2))
    \<and> (arrays w1 m1 = arrays w2 m2 \<and> arrays w1 s1 = arrays w2 s2 \<and> arrays w1 k1 = arrays w2 k2 \<longrightarrow>
        map_option fst (ecdsaVerify L w1 m1 s1 k1) = map_option fst (ecdsaVerify L w2 m2 s2 k2))
    \<and> (arrays w1 m1 = arrays w2 m2 \<and> arrays w1 s1 = arrays w2 s2 \<and> arrays w1 k1 = arrays w2 k2 \<longrightarrow>
        map_option fst (schnorrVerify L w1 s1 m1 k1) = map_option fst (schnorrVerify L w2 s2 m2 k2))
    \<and> (\<exists>b w'. isValidPubKey L w1 k1 = Some (b, w') \<and> arrays w' = arrays w1 \<and> views w' = views w1)
    \<and> (\<exists>b w'. ecdsaVerify L w1 m1 s1 k1 = Some (b, w') \<and> arrays w' = arrays w1
          \<and> views w' = views w1)
    \<and> (\<exists>b w'. schnorrVerify L w1 s1 m1 k1 = Some (b, w') \<and> arrays w' = arrays w1
          \<and> views w' = views w1)"
proof -
  have g3: "granted3 w1 = granted3 w2"
    using assms(2) by (simp add: granted3_def)
  have "take 1 (take 3 (get_results w1)) = take 1 (take 3 (get_results w2))"
    using assms(2) by simp
  then have g1: "granted1 w1 = granted1 w2"
    by (simp add: granted1_def)
  have valid: "map_option fst (isValidPubKey L w1 k1) = map_option fst (isValidPubKey L w2 k2)"
    if h: "arrays w1 k1 = arrays w2 k2"
  proof -
    have "(case fst (get_context L w1) of None \<Rightarrow> False
           | Some c \<Rightarrow> granted1 w1 \<and> pubkey_accepts L c (arrays w1 k1))
        = (case fst (get_context L w2) of None \<Rightarrow> False
           | Some c \<Rightarrow> granted1 w2 \<and> pubkey_accepts L c (arrays w2 k2))"
      using h assms(1) g1 by (simp split: option.splits)
    then show ?thesis
      using outcome_result[OF isValidPubKey_summary[of L w1 k1]]
        outcome_result[OF isValidPubKey_summary[of L w2 k2]]
      by (simp only:)
  qed
  have ecdsa: "map_option fst (ecdsaVerify L w1 m1 s1 k1) = map_option fst (ecdsaVerify L w2 m2 s2 k2)"
    if h: "arrays w1 m1 = arrays w2 m2 \<and> arrays w1 s1 = arrays w2 s2 \<and> arrays w1 k1 = arrays w2 k2"
  proof -
    have "(case fst (get_context L w1) of None \<Rightarrow> False
           | Some c \<Rightarrow> granted3 w1 \<and> ecdsa_accepts L c (arrays w1 m1) (arrays w1 s1) (arrays w1 k1))
        = (case fst (get_context L w2) of None \<Rightarrow> False
           | Some c \<Rightarrow> granted3 w2 \<and> ecdsa_accepts L c (arrays w2 m2) (arrays w2 s2) (arrays w2 k2))"
      using h assms(1) g3 by (simp split: option.splits)
    then show ?thesis
      using outcome_result[OF ecdsaVerify_summary[of L w1 m1 s1 k1]]
        outcome_result[OF ecdsaVerify_summary[of L w2 m2 s2 k2]]
      by (simp only:)
  qed
  have schnorr: "map_option fst (schnorrVerify L w1 s1 m1 k1) = map_option fst (schnorrVerify L w2 s2 m2 k2)"
    if h: "arrays w1 m1 = arrays w2 m2 \<and> arrays w1 s1 = arrays w2 s2 \<and> arrays w1 k1 = arrays w2 k2"
  proof -
    have "(case fst (get_context L w1) of None \<Rightarrow> False
           | Some c \<Rightarrow> granted3 w1 \<and> schnorr_accepts L c (arrays w1 s1) (arrays w1 m1) (arrays w1 k1))
        = (case fst (get_context L w2) of None \<Rightarrow> False
           | Some c \<Rightarrow> granted3 w2 \<and> schnorr_accepts L c (arrays w2 s2) (arrays w2 m2) (arrays w2 k2))"
      using h assms(1) g3 by (simp split: option.splits)
    then show ?thesis
      using outcome_result[OF schnorrVerify_summary[of L w1 s1 m1 k1]]
        outcome_result[OF schnorrVerify_summary[of L w2 s2 m2 k2]]
      by (simp only:)
  qed
  have f1: "\<exists>b w'. isValidPubKey L w1 k1 = Some (b, w') \<and> arrays w' = arrays w1
      \<and> views w' = views w1"
    using outcome_from_start[OF isValidPubKey_summary[of L w1 k1]] by blast
  have f2: "\<exists>b w'. ecdsaVerify L w1 m1 s1 k1 = Some (b, w') \<and> arrays w' = arrays w1
      \<and> views w' = views w1"
    using outcome_from_start[OF ecdsaVerify_summary[of L w1 m1 s1 k1]] by blast
  have f3: "\<exists>b w'. schnorrVerify L w1 s1 m1 k1 = Some (b, w') \<and> arrays w' = arrays w1
      \<and> views w' = views w1"
    using outcome_from_start[OF schnorrVerify_summary[of L w1 s1 m1 k1]] by blast
  show ?thesis
    using valid ecdsa schnorr f1 f2 f3 by blast
qed

theorem verification_deterministic_witness:
  "fst (get_context example_lib fresh_world) = fst (get_context example_lib ready_world)
   \<and> take 3 (get_results fresh_world) = take 3 (get_results ready_world)
   \<and> arrays fresh_world 0 = arrays ready_world 0 \<and> arrays fresh_world 1 = arrays ready_world 1
   \<and> arrays fresh_world 2 = arrays ready_world 2
   \<and> map_option fst (isValidPubKey example_lib fresh_world 2)
       = map_option fst (isValidPubKey example_lib ready_world 2)
   \<and> map_option fst (ecdsaVerify example_lib fresh_world 0 1 2)
       = map_option fst (ecdsaVerify example_lib ready_world 0 1 2)
   \<and> map_option fst (schnorrVerify example_lib fresh_world 1 0 2)
       = map_option fst (schnorrVerify example_lib ready_world 1 0 2)"
proof -
  have h: "fst (get_context example_lib fresh_world) = fst (get_context example_lib ready_world)"
    "take 3 (get_results fresh_world) = take 3 (get_results ready_world)"
    by (simp_all add: get_context_def pthread_once_def init_context_def example_lib_def
        fresh_world_def ready_world_def)
  have a: "arrays fresh_world = arrays ready_world"
    by (simp add: fresh_world_def ready_world_def)
  from verification_deterministic[OF h, of 2 2 0 0 1 1] h a
  show ?thesis by simp
qed

text \<open>
  C10. No operation changes a byte of the arrays it is given: after every call of each of the
  three operations the Java arrays are what they were before it, and every view the call gave
  back was given back in mode \<^verbatim>\<open>JNI_ABORT\<close>.
\<close>

theorem inputs_unchanged:
  "(\<exists>b w'. isValidPubKey L w pubKey = Some (b, w') \<and> arrays w' = arrays w
      \<and> set (release_modes (new_events w w')) \<subseteq> {JNI_ABORT})
   \<and> (\<exists>b w'. ecdsaVerify L w msg32 sig64 pubKey33 = Some (b, w') \<and> arrays w' = arrays w
      \<and> set (release_modes (new_events w w')) \<subseteq> {JNI_ABORT})
   \<and> (\<exists>b w'. schnorrVerify L w sig msg pubKey32 = Some (b, w') \<and> arrays w' = arrays w
      \<and> set (release_modes (new_events w w')) \<subseteq> {JNI_ABORT})"
proof (intro conjI)
  show "\<exists>b w'. isValidPubKey L w pubKey = Some (b, w') \<and> arrays w' = arrays w
      \<and> set (release_modes (new_events w w')) \<subseteq> {JNI_ABORT}"
    using outcome_from_start[OF isValidPubKey_summary[of L w pubKey]] by blast
  show "\<exists>b w'. ecdsaVerify L w msg32 sig64 pubKey33 = Some (b, w') \<and> arrays w' = arrays w
      \<and> set (release_modes (new_events w w')) \<subseteq> {JNI_ABORT}"
    using outcome_from_start[OF ecdsaVerify_summary[of L w msg32 sig64 pubKey33]] by blast
  show "\<exists>b w'. schnorrVerify L w sig msg pubKey32 = Some (b, w') \<and> arrays w' = arrays w
      \<and> set (release_modes (new_events w w')) \<subseteq> {JNI_ABORT}"
    using outcome_from_start[OF schnorrVerify_summary[of L w sig msg pubKey32]] by blast
qed

theorem inputs_unchanged_witness:
  "map_option (arrays \<circ> snd) (isValidPubKey example_lib fresh_world 2) = Some example_arrays
   \<and> map_option (arrays \<circ> snd) (ecdsaVerify example_lib fresh_world 0 1 2) = Some example_arrays
   \<and> map_option (arrays \<circ> snd) (schnorrVerify example_lib fresh_world 1 3 0)
       = Some example_arrays"
proof -
  have a: "arrays fresh_world = example_arrays"
    by (simp add: fresh_world_def)
  from inputs_unchanged[of example_lib fresh_world 2 0 1 2 1 3 0] a
  show ?thesis by auto
qed

end
